theory Spec2Isabelle
  imports Main
begin

section \<open>Bytes, Go errors and the string helpers\<close>

text \<open>
  Bytes are \<^typ>\<open>char\<close> (eight bits), a Go \<^verbatim>\<open>[]byte\<close> or \<^verbatim>\<open>string\<close> is a
  \<^typ>\<open>string\<close>. The sentinel of the result protocol is the zero byte.
\<close>

abbreviation NUL :: char where
  "NUL \<equiv> CHR 0x00"

text \<open>
  The error values the function builds: a \<^verbatim>\<open>syscall.Errno\<close>, \<^verbatim>\<open>errors.New\<close>
  (also \<^verbatim>\<open>errors.Errorf\<close>, whose text is formatted at the call), \<^verbatim>\<open>errors.Wrapf\<close>,
  and the errors of library calls (\<^verbatim>\<open>encoding/json\<close>, the caller's logic), which only
  carry their text here.
\<close>

datatype go_error =
    Errno nat
  | New string
  | Wrapf go_error string
  | LibError string

text \<open>\<^verbatim>\<open>err.Error()\<close>; the text of an errno comes from the table of the Go runtime.\<close>

fun Error :: "(nat \<Rightarrow> string) \<Rightarrow> go_error \<Rightarrow> string" where
  "Error tab (Errno n) = tab n"
| "Error tab (New s) = s"
| "Error tab (Wrapf e m) = m @ '': '' @ Error tab e"
| "Error tab (LibError s) = s"

definition HasPrefix :: "string \<Rightarrow> string \<Rightarrow> bool" where
  "HasPrefix s p = (take (length p) s = p)"

definition TrimPrefix :: "string \<Rightarrow> string \<Rightarrow> string" where
  "TrimPrefix s p = (if HasPrefix s p then drop (length p) s else s)"

text \<open>
  \<^verbatim>\<open>unix.BytePtrFromString\<close>: a string with a zero byte in it is refused with
  \<^verbatim>\<open>EINVAL\<close> (22), any other is handed to the kernel as it is.
\<close>

definition EINVAL :: nat where
  "EINVAL = 22"

definition BytePtrFromString :: "string \<Rightarrow> go_error + string" where
  "BytePtrFromString s = (if NUL \<in> set s then Inl (Errno EINVAL) else Inr s)"

section \<open>Raw system calls\<close>

text \<open>
  \<^verbatim>\<open>unix.RawSyscall\<close> returns the first result register and the errno. The register
  is read as a signed \<^verbatim>\<open>int\<close>, as every wrapper of the file does (\<^verbatim>\<open>int(r0)\<close>).
\<close>

type_synonym raw = "int \<times> nat"

definition CLONE_NEWNS :: int where
  "CLONE_NEWNS = 0x00020000"

definition CLONE_NEWNET :: int where
  "CLONE_NEWNET = 0x40000000"

definition SIGINT :: int where
  "SIGINT = 2"

text \<open>What a process asks of the kernel and of its logger, in program order.\<close>

datatype event =
    SysPipe
  | SysFork
  | SysOpenat string
  | SysSetns int int
  | SysClose int
  | SysRead int nat int
  | SysWrite int string
  | SysKill int int
  | SysExitGroup
  | CallToExecute
  | LogErrorf string
  | LogWarnf string

text \<open>
  \<^verbatim>\<open>read\<close>, \<^verbatim>\<open>write\<close> (here \<open>write_raw\<close>), \<^verbatim>\<open>openat\<close> and \<^verbatim>\<open>open\<close> (here \<open>open_raw\<close>):
  the error is dropped when the result is not negative.
\<close>

definition read :: "raw \<Rightarrow> int \<times> go_error option" where
  "read r = (let n = fst r in (n, if n \<ge> 0 then None else Some (Errno (snd r))))"

definition write_raw :: "raw \<Rightarrow> int \<times> go_error option" where
  "write_raw r = (let n = fst r in (n, if n \<ge> 0 then None else Some (Errno (snd r))))"

definition openat :: "raw \<Rightarrow> int \<times> go_error option" where
  "openat r = (let fd = fst r in (fd, if fd \<ge> 0 then None else Some (Errno (snd r))))"

definition open_raw :: "raw \<Rightarrow> int \<times> go_error option" where
  "open_raw r = openat r"

text \<open>\<^verbatim>\<open>setns\<close>, \<^verbatim>\<open>close_raw\<close>: the error is dropped when the result is zero.\<close>

definition setns :: "raw \<Rightarrow> go_error option" where
  "setns r = (if fst r = 0 then None else Some (Errno (snd r)))"

definition close_raw :: "raw \<Rightarrow> go_error option" where
  "close_raw r = (if fst r = 0 then None else Some (Errno (snd r)))"

section \<open>The world outside the function\<close>

text \<open>
  Everything the code does not decide itself: the library functions it calls and what
  the kernel answers. The two loops take their answers from a schedule: \<open>Inl e\<close> is a
  call that fails with errno \<open>e\<close>, \<open>Inr k\<close> a call that moves at most \<open>k\<close> bytes; after
  the schedule the kernel moves as much as the call asks for.
\<close>

record 't world =
  filepath_Join :: "string \<Rightarrow> string \<Rightarrow> string"
  strerror :: "nat \<Rightarrow> string"
  json_Marshal :: "'t option \<Rightarrow> go_error + string"
  json_Unmarshal :: "string \<Rightarrow> go_error + 't"
  pipe_result :: "nat + (int \<times> int)"
  fork_result :: raw
  open_net :: raw
  setns_net :: raw
  close_net :: raw
  open_mnt :: raw
  setns_mnt :: raw
  close_mnt :: raw
  writes :: "(nat + nat) list"
  reads :: "(nat + nat) list"
  deadline_first :: bool
  kill_result :: "nat option"

section \<open>switchNs\<close>

text \<open>
  The network namespace first, then the mount namespace; each of the six steps returns
  at once when it fails. The result is the error and the system calls made.
\<close>

definition switchNs :: "'t world \<Rightarrow> string \<Rightarrow> string \<Rightarrow> go_error option \<times> event list" where
  "switchNs w mountNs netNs =
    (let (fd, err) = open_raw (open_net w) in
     if err \<noteq> None then (Some (Wrapf (the err) ''failed to open net namespace''), [SysOpenat netNs])
     else let err = setns (setns_net w) in
     if err \<noteq> None then
       (Some (Wrapf (the err) ''failed to setns net namespace''),
        [SysOpenat netNs, SysSetns fd CLONE_NEWNET, SysClose fd])
     else let err = close_raw (close_net w) in
     if err \<noteq> None then
       (Some (Wrapf (the err) ''failed to close net namespace''),
        [SysOpenat netNs, SysSetns fd CLONE_NEWNET, SysClose fd])
     else let net_steps = [SysOpenat netNs, SysSetns fd CLONE_NEWNET, SysClose fd];
              (fd, err) = open_raw (open_mnt w) in
     if fd < 0 \<and> err \<noteq> None then
       (Some (Wrapf (the err) ''failed to open mount namespace''), net_steps @ [SysOpenat mountNs])
     else let err = setns (setns_mnt w) in
     if err \<noteq> None then
       (Some (Wrapf (the err) ''failed to setns mount namespace''),
        net_steps @ [SysOpenat mountNs, SysSetns fd CLONE_NEWNS, SysClose fd])
     else let err = close_raw (close_mnt w) in
     if err \<noteq> None then
       (Some (Wrapf (the err) ''failed to close mount namespace''),
        net_steps @ [SysOpenat mountNs, SysSetns fd CLONE_NEWNS, SysClose fd])
     else (None, net_steps @ [SysOpenat mountNs, SysSetns fd CLONE_NEWNS, SysClose fd]))"

section \<open>The child: encode, write, exit\<close>

text \<open>
  The caller's logic is a closure; what matters of it is what it returns, a pointer
  (\<open>None\<close> is \<^verbatim>\<open>nil\<close>) and an error. A logic that never returns is \<open>None\<close>.
\<close>

type_synonym 't logic = "('t option \<times> go_error option) option"

text \<open>The message of the child: \<^verbatim>\<open>err:\<close> or \<^verbatim>\<open>ok:\<close>, the payload, the zero byte.\<close>

definition encode_msg :: "'t world \<Rightarrow> 't option \<Rightarrow> go_error option \<Rightarrow> string" where
  "encode_msg w out err =
    (let msg =
       (if err \<noteq> None then ''err:'' @ Error (strerror w) (the err)
        else case json_Marshal w out of
               Inl err \<Rightarrow> ''err:'' @ Error (strerror w) err
             | Inr base \<Rightarrow> ''ok:'' @ base)
     in msg @ [NUL])"

text \<open>The kernel's answer to a \<^verbatim>\<open>write\<close> of \<open>count\<close> bytes.\<close>

definition kernel_write :: "nat \<Rightarrow> (nat + nat) list \<Rightarrow> raw" where
  "kernel_write count sched =
    (case sched of
       [] \<Rightarrow> (int count, 0)
     | Inl e # _ \<Rightarrow> (- 1, e)
     | Inr k # _ \<Rightarrow> (int (min k count), 0))"

text \<open>
  The write loop: it goes on until the whole message is written or a write fails. The
  result is the number of bytes written and the calls made.
\<close>

function write_loop :: "int \<Rightarrow> string \<Rightarrow> nat \<Rightarrow> (nat + nat) list \<Rightarrow> nat \<times> event list" where
  "write_loop fd msg written sched =
    (if written < length msg then
       (let p = drop written msg;
            (newly_written, err) = write_raw (kernel_write (length p) sched)
        in if err \<noteq> None then (written, [SysWrite fd p])
           else let (n, tr) = write_loop fd msg (written + nat newly_written) (tl sched)
                in (n, SysWrite fd p # tr))
     else (written, []))"
  by pat_completeness auto
termination
proof (relation "measures [\<lambda>(fd, msg, written, sched). length sched,
                           \<lambda>(fd, msg, written, sched). length msg - written]", goal_cases)
  case 1
  show ?case by simp
next
  case (2 fd msg written sched p x newly_written err)
  then show ?case
    by (cases sched) (auto simp: write_raw_def kernel_write_def Let_def split: sum.splits if_splits)
qed

record child_run =
  child_trace :: "event list"
  child_msg :: "string option"
  sent :: string
  exited :: bool

text \<open>
  The child branch (after the fork, \<^verbatim>\<open>pid == 0\<close>): switch, run the logic when the switch
  worked, encode, write, close the write end, leave by \<^verbatim>\<open>exit_group\<close>. A child whose
  logic never returns writes nothing and does not exit.
\<close>

definition child_branch ::
  "'t world \<Rightarrow> string \<Rightarrow> string \<Rightarrow> int \<times> int \<Rightarrow> 't logic \<Rightarrow> child_run" where
  "child_branch w mountNs netNs pipes toExecute =
    (let (err, tr1) = switchNs w mountNs netNs in
     if err = None \<and> toExecute = None then
       \<lparr>child_trace = tr1 @ [CallToExecute], child_msg = None, sent = [], exited = False\<rparr>
     else
       let (out, err, tr2) =
             (if err = None then (fst (the toExecute), snd (the toExecute), [CallToExecute])
              else (None, err, []));
           msg = encode_msg w out err;
           (written, tr3) = write_loop (snd pipes) msg 0 (writes w)
       in \<lparr>child_trace = tr1 @ tr2 @ tr3 @ [SysClose (snd pipes), SysExitGroup],
           child_msg = Some msg, sent = take written msg, exited = True\<rparr>)"

section \<open>The parent: read until the sentinel, decode, or time out\<close>

text \<open>
  The kernel's answer to a blocking \<^verbatim>\<open>read\<close> of at most \<open>count\<close> bytes on the pipe.
  \<open>pending\<close> are the bytes the child has written and the reader has not read yet,
  \<open>closed\<close> says whether the write end gets closed (the child exits). With nothing
  pending the call returns 0 on a closed pipe and never returns on an open one;
  otherwise it returns at least one byte.
\<close>

datatype answer = Blocks | Raw int nat string

definition kernel_read :: "string \<Rightarrow> bool \<Rightarrow> nat \<Rightarrow> (nat + nat) list \<Rightarrow> answer" where
  "kernel_read pending closed count sched =
    (case sched of
       Inl e # _ \<Rightarrow> Raw (- 1) e []
     | _ \<Rightarrow>
       if pending = [] then (if closed then Raw 0 0 [] else Blocks)
       else let k = (case sched of Inr k # _ \<Rightarrow> min count (max 1 k) | _ \<Rightarrow> count);
                data = take k pending
            in Raw (int (length data)) 0 data)"

text \<open>Lines 56 to 60: the buffer doubles when it is full.\<close>

definition grow :: "nat \<Rightarrow> nat \<Rightarrow> string \<Rightarrow> nat \<times> string" where
  "grow bufSize bufIndex buf =
    (if bufIndex = bufSize then (bufSize * 2, buf @ replicate bufSize NUL) else (bufSize, buf))"

text \<open>The kernel copies the bytes read to \<^verbatim>\<open>buf[bufIndex:]\<close>.\<close>

definition store :: "nat \<Rightarrow> string \<Rightarrow> string \<Rightarrow> string" where
  "store bufIndex buf data = take bufIndex buf @ data @ drop (bufIndex + length data) buf"

text \<open>
  The reader goroutine. The result is what it sends on the channel (\<open>None\<close> when it
  never sends, \<open>Some []\<close> is the \<^verbatim>\<open>nil\<close> of a failed read) and the calls that
  returned, each \<^verbatim>\<open>read\<close> with its count and its result.
\<close>

function reader_loop ::
  "'t world \<Rightarrow> int \<Rightarrow> nat \<Rightarrow> nat \<Rightarrow> string \<Rightarrow> string \<Rightarrow> bool \<Rightarrow> (nat + nat) list
   \<Rightarrow> string option \<times> event list" where
  "reader_loop w fd bufSize bufIndex buf pending closed sched =
    (let (bufSize, buf) = grow bufSize bufIndex buf;
         count = length (drop bufIndex buf)
     in case kernel_read pending closed count sched of
          Blocks \<Rightarrow> (None, [])
        | Raw r e data \<Rightarrow>
           (let (n, err) = read (r, e) in
            if err \<noteq> None then
              (Some [], [SysRead fd count r,
                         LogErrorf (''failed to read from setns pipe: '' @ Error (strerror w) (the err))])
            else
              let buf = store bufIndex buf data;
                  bufIndex = bufIndex + nat n
              in if n = 0 \<or> NUL \<in> set (take bufIndex buf) then
                   (Some (take bufIndex buf), [SysRead fd count r, SysClose fd])
                 else
                   let (d, tr) = reader_loop w fd bufSize bufIndex buf
                                   (drop (nat n) pending) closed (tl sched)
                   in (d, SysRead fd count r # tr)))"
  by pat_completeness auto
termination
proof (relation "measure (\<lambda>(w, fd, bufSize, bufIndex, buf, pending, closed, sched). length pending)",
       goal_cases)
  case 1
  show ?case by simp
next
  case 2
  then show ?case
    by (auto simp: read_def kernel_read_def Let_def min_def split: if_splits list.splits sum.splits)
qed

text \<open>
  What the caller of the function gets: the two results of a \<^verbatim>\<open>return\<close>, a
  run-time panic, or nothing (the process that runs the child branch exits).
\<close>

datatype 't outcome = Return "'t option" "go_error option" | Panic string | NoReturn

text \<open>Lines 78 to 96: the first case of the \<^verbatim>\<open>select\<close>, on the buffer received.\<close>

definition decode :: "'t world \<Rightarrow> string \<Rightarrow> 't outcome" where
  "decode w buf =
    (if length buf = 0 then Panic ''runtime error: index out of range [-1]''
     else if buf ! (length buf - 1) \<noteq> NUL then
       Return None (Some (New ''invalid termination character, not NUL''))
     else
       let out = take (length buf - 1) buf in
       if HasPrefix out ''err:'' then Return None (Some (New (TrimPrefix out ''err:'')))
       else if HasPrefix out ''ok:'' then
         (case json_Unmarshal w (TrimPrefix out ''ok:'') of
            Inl err \<Rightarrow> Return None (Some err)
          | Inr unmarshalled \<Rightarrow> Return (Some unmarshalled) None)
       else Return None (Some (New (''unknown response: '' @ out))))"

record 't run =
  outcome :: "'t outcome"
  main_trace :: "event list"
  reader_trace :: "event list"
  delivered :: "string option"
  child :: "child_run option"

text \<open>
  The parent branch (\<^verbatim>\<open>pid != 0\<close>): close the write end, start the reader, and take
  whichever comes first, the buffer or the deadline. The deadline comes first when the
  world says so, and also when the reader never sends.
\<close>

definition parent_branch :: "'t world \<Rightarrow> int \<times> int \<Rightarrow> int \<Rightarrow> child_run \<Rightarrow> 't run" where
  "parent_branch w pipes pid c =
    (let (d, rtr) = reader_loop w (fst pipes) 256 0 (replicate 256 NUL) (sent c) (exited c) (reads w) in
     if d \<noteq> None \<and> \<not> deadline_first w then
       \<lparr>outcome = decode w (the d),
        main_trace = [SysPipe, SysFork, SysClose (snd pipes)],
        reader_trace = rtr, delivered = d, child = Some c\<rparr>
     else
       \<lparr>outcome = Return None (Some (New ''ForkAndSwitchToNamespace timed out'')),
        main_trace = [SysPipe, SysFork, SysClose (snd pipes), SysKill pid SIGINT] @
          (case kill_result w of
             None \<Rightarrow> []
           | Some e \<Rightarrow> [LogWarnf (''failed to kill setns process: '' @ strerror w e)]),
        reader_trace = rtr, delivered = d, child = Some c\<rparr>)"

text \<open>A call that ends before the fork: no reader, no child.\<close>

definition early :: "'t outcome \<Rightarrow> event list \<Rightarrow> 't run" where
  "early res tr =
    \<lparr>outcome = res, main_trace = tr, reader_trace = [], delivered = None, child = None\<rparr>"

section \<open>ForkAndSwitchToNamespace\<close>

text \<open>
  The function as the process that calls it runs it. After a fork that worked, the
  calling process goes on as the parent with the child's pid; the child runs the same
  code with \<^verbatim>\<open>pid == 0\<close>, and what it writes is what the parent's pipe holds. The
  timeout itself is not a number here: which of the reader and the timer is first is
  \<open>deadline_first\<close>.
\<close>

definition ForkAndSwitchToNamespace :: "'t world \<Rightarrow> string \<Rightarrow> 't logic \<Rightarrow> 't run" where
  "ForkAndSwitchToNamespace w ns toExecute =
    (case BytePtrFromString (filepath_Join w ns ''mnt'') of
       Inl err \<Rightarrow> early (Return None (Some err)) []
     | Inr mountNs \<Rightarrow>
    (case BytePtrFromString (filepath_Join w ns ''net'') of
       Inl err \<Rightarrow> early (Return None (Some err)) []
     | Inr netNs \<Rightarrow>
    (case pipe_result w of
       Inl e \<Rightarrow> early (Return None (Some (Wrapf (Errno e) ''failed to init pipes''))) [SysPipe]
     | Inr pipes \<Rightarrow>
       let (pid, e) = fork_result w in
       if pid = - 1 then
         early (Return None (Some (Wrapf (Errno e) ''failed to fork''))) [SysPipe, SysFork]
       else if pid \<noteq> 0 then
         parent_branch w pipes pid (child_branch w mountNs netNs pipes toExecute)
       else
         \<lparr>outcome = NoReturn, main_trace = [SysPipe, SysFork], reader_trace = [],
          delivered = None, child = Some (child_branch w mountNs netNs pipes toExecute)\<rparr>)))"

section \<open>Notions the properties are stated with\<close>

text \<open>
  The call gets to the parent branch: both paths convert, the pipe is created with the
  two descriptors \<open>pipes\<close>, and the fork returns the child's pid.
\<close>

definition in_parent :: "'t world \<Rightarrow> string \<Rightarrow> int \<times> int \<Rightarrow> int \<Rightarrow> bool" where
  "in_parent w ns pipes pid =
    (NUL \<notin> set (filepath_Join w ns ''mnt'') \<and> NUL \<notin> set (filepath_Join w ns ''net'') \<and>
     pipe_result w = Inr pipes \<and> fst (fork_result w) = pid \<and> pid \<noteq> - 1 \<and> pid \<noteq> 0)"

text \<open>The child of a call, on the paths the call computes.\<close>

definition the_child :: "'t world \<Rightarrow> string \<Rightarrow> int \<times> int \<Rightarrow> 't logic \<Rightarrow> child_run" where
  "the_child w ns pipes toExecute =
    child_branch w (filepath_Join w ns ''mnt'') (filepath_Join w ns ''net'') pipes toExecute"

text \<open>
  The first step on the network namespace that the kernel refuses, with its errno:
  \<^verbatim>\<open>openat\<close> answers a negative number, \<^verbatim>\<open>setns\<close> or \<^verbatim>\<open>close\<close> a number other than 0.
\<close>

definition net_failure :: "'t world \<Rightarrow> (string \<times> nat) option" where
  "net_failure w =
    (if fst (open_net w) < 0 then Some (''open'', snd (open_net w))
     else if fst (setns_net w) \<noteq> 0 then Some (''setns'', snd (setns_net w))
     else if fst (close_net w) \<noteq> 0 then Some (''close'', snd (close_net w))
     else None)"

text \<open>The paths a trace opens and the namespace types it joins, in order.\<close>

fun opened :: "event list \<Rightarrow> string list" where
  "opened [] = []"
| "opened (SysOpenat p # tr) = p # opened tr"
| "opened (ev # tr) = opened tr"

fun joined :: "event list \<Rightarrow> int list" where
  "joined [] = []"
| "joined (SysSetns fd nstype # tr) = nstype # joined tr"
| "joined (ev # tr) = joined tr"

subsection \<open>A concrete world\<close>

text \<open>
  The result type is \<^typ>\<open>bool\<close>, with the JSON texts Go gives it: a \<^verbatim>\<open>nil\<close> pointer
  is \<^verbatim>\<open>null\<close>, and \<^verbatim>\<open>null\<close> leaves the zero value \<^verbatim>\<open>false\<close> in place. In
  \<open>calm_world\<close> every call of the kernel works, the pipe is \<open>(3, 4)\<close>, the child has
  pid 1234 and the reader is first.
\<close>

definition bool_Marshal :: "bool option \<Rightarrow> go_error + string" where
  "bool_Marshal v =
    (case v of None \<Rightarrow> Inr ''null'' | Some b \<Rightarrow> Inr (if b then ''true'' else ''false''))"

definition bool_Unmarshal :: "string \<Rightarrow> go_error + bool" where
  "bool_Unmarshal s =
    (if s = ''true'' then Inr True
     else if s = ''false'' \<or> s = ''null'' then Inr False
     else Inl (LibError ''invalid character''))"

definition calm_world :: "bool world" where
  "calm_world =
    \<lparr>filepath_Join = (\<lambda>dir name. dir @ ''/'' @ name),
     strerror = (\<lambda>n. if n = 2 then ''no such file or directory'' else ''errno''),
     json_Marshal = bool_Marshal, json_Unmarshal = bool_Unmarshal,
     pipe_result = Inr (3, 4), fork_result = (1234, 0),
     open_net = (5, 0), setns_net = (0, 0), close_net = (0, 0),
     open_mnt = (5, 0), setns_mnt = (0, 0), close_mnt = (0, 0),
     writes = [], reads = [], deadline_first = False, kill_result = None\<rparr>"

section \<open>Lemmas on the two loops\<close>

declare write_loop.simps [simp del]
declare reader_loop.simps [simp del]

lemma kernel_read_progress:
  "kernel_read pending closed count sched = Raw r e data \<Longrightarrow> r \<noteq> 0 \<Longrightarrow> 0 \<le> r \<Longrightarrow>
   pending \<noteq> [] \<and> data = take (nat r) pending \<and> nat r \<le> length pending"
  by (auto simp: kernel_read_def Let_def min_def split: list.splits sum.splits if_splits)

lemma in_parent_run:
  "in_parent w ns pipes pid \<Longrightarrow>
   ForkAndSwitchToNamespace w ns toExecute = parent_branch w pipes pid (the_child w ns pipes toExecute)"
  by (auto simp: in_parent_def ForkAndSwitchToNamespace_def BytePtrFromString_def the_child_def
        split: prod.splits)

subsection \<open>The write loop, one iteration at a time\<close>

lemma write_loop_done:
  "\<not> written < length msg \<Longrightarrow> write_loop fd msg written sched = (written, [])"
  by (subst write_loop.simps) simp

lemma write_loop_fail:
  "written < length msg \<Longrightarrow>
   write_loop fd msg written (Inl e # rest) = (written, [SysWrite fd (drop written msg)])"
  by (subst write_loop.simps) (simp add: kernel_write_def write_raw_def)

lemma write_loop_step:
  "written < length msg \<Longrightarrow>
   write_loop fd msg written (Inr k # rest) =
     (fst (write_loop fd msg (written + min k (length msg - written)) rest),
      SysWrite fd (drop written msg) # snd (write_loop fd msg (written + min k (length msg - written)) rest))"
  by (subst write_loop.simps) (simp add: kernel_write_def write_raw_def split: prod.splits)

lemma write_loop_rest:
  "written < length msg \<Longrightarrow>
   write_loop fd msg written [] = (length msg, [SysWrite fd (drop written msg)])"
  by (subst write_loop.simps) (simp add: kernel_write_def write_raw_def write_loop_done)

lemma write_loop_all:
  "\<forall>e. Inl e \<notin> set sched \<Longrightarrow> written \<le> length msg \<Longrightarrow>
   fst (write_loop fd msg written sched) = length msg"
proof (induction sched arbitrary: written)
  case Nil
  then show ?case
    by (cases "written < length msg") (simp_all add: write_loop_rest write_loop_done)
next
  case (Cons a rest)
  show ?case
  proof (cases "written < length msg")
    case False
    with Cons.prems show ?thesis by (simp add: write_loop_done)
  next
    case True
    from Cons.prems obtain k where a: "a = Inr k"
      by (cases a) auto
    have "fst (write_loop fd msg (written + min k (length msg - written)) rest) = length msg"
      using Cons.prems True by (intro Cons.IH) auto
    with True a show ?thesis
      by (simp add: write_loop_step)
  qed
qed

lemma write_loop_events:
  "ev \<in> set (snd (write_loop fd msg written sched)) \<Longrightarrow> \<exists>p. ev = SysWrite fd p"
proof (induction sched arbitrary: written)
  case Nil
  then show ?case
    by (cases "written < length msg") (simp_all add: write_loop_rest write_loop_done)
next
  case (Cons a rest)
  show ?case
  proof (cases "written < length msg")
    case False
    with Cons.prems show ?thesis by (simp add: write_loop_done)
  next
    case True
    with Cons show ?thesis
      by (cases a) (auto simp: write_loop_fail write_loop_step)
  qed
qed


subsection \<open>The reader loop, one iteration at a time\<close>

lemma reader_loop_blocks:
  "kernel_read pending closed (length (snd (grow bufSize bufIndex buf)) - bufIndex) sched = Blocks \<Longrightarrow>
   reader_loop w fd bufSize bufIndex buf pending closed sched = (None, [])"
  by (subst reader_loop.simps) (auto simp: Let_def split: prod.splits)

lemma reader_loop_fail:
  "kernel_read pending closed (length (snd (grow bufSize bufIndex buf)) - bufIndex) sched = Raw r e data \<Longrightarrow>
   r < 0 \<Longrightarrow>
   reader_loop w fd bufSize bufIndex buf pending closed sched =
     (Some [], [SysRead fd (length (snd (grow bufSize bufIndex buf)) - bufIndex) r,
                LogErrorf (''failed to read from setns pipe: '' @ strerror w e)])"
  by (subst reader_loop.simps) (auto simp: Let_def read_def split: prod.splits)

lemma reader_loop_stop:
  "kernel_read pending closed (length (snd (grow bufSize bufIndex buf)) - bufIndex) sched = Raw r e data \<Longrightarrow>
   0 \<le> r \<Longrightarrow>
   r = 0 \<or> NUL \<in> set (take (bufIndex + nat r) (store bufIndex (snd (grow bufSize bufIndex buf)) data)) \<Longrightarrow>
   reader_loop w fd bufSize bufIndex buf pending closed sched =
     (Some (take (bufIndex + nat r) (store bufIndex (snd (grow bufSize bufIndex buf)) data)),
      [SysRead fd (length (snd (grow bufSize bufIndex buf)) - bufIndex) r, SysClose fd])"
  by (subst reader_loop.simps) (auto simp: Let_def read_def split: prod.splits)

lemma reader_loop_more:
  "kernel_read pending closed (length (snd (grow bufSize bufIndex buf)) - bufIndex) sched = Raw r e data \<Longrightarrow>
   0 \<le> r \<Longrightarrow> r \<noteq> 0 \<Longrightarrow>
   NUL \<notin> set (take (bufIndex + nat r) (store bufIndex (snd (grow bufSize bufIndex buf)) data)) \<Longrightarrow>
   reader_loop w fd bufSize bufIndex buf pending closed sched =
     (fst (reader_loop w fd (fst (grow bufSize bufIndex buf)) (bufIndex + nat r)
             (store bufIndex (snd (grow bufSize bufIndex buf)) data) (drop (nat r) pending) closed (tl sched)),
      SysRead fd (length (snd (grow bufSize bufIndex buf)) - bufIndex) r #
      snd (reader_loop w fd (fst (grow bufSize bufIndex buf)) (bufIndex + nat r)
             (store bufIndex (snd (grow bufSize bufIndex buf)) data) (drop (nat r) pending) closed (tl sched)))"
  by (subst reader_loop.simps) (auto simp: Let_def read_def split: prod.splits)

lemma reader_loop_failed_read:
  "SysRead fd' c r0 \<in> set (snd (reader_loop w fd bufSize bufIndex buf pending closed sched)) \<Longrightarrow>
   r0 < 0 \<Longrightarrow> fst (reader_loop w fd bufSize bufIndex buf pending closed sched) = Some []"
proof (induction "length pending" arbitrary: bufSize bufIndex buf pending sched rule: less_induct)
  case less
  let ?g = "grow bufSize bufIndex buf"
  let ?count = "length (snd ?g) - bufIndex"
  show ?case
  proof (cases "kernel_read pending closed ?count sched")
    case Blocks
    with less.prems show ?thesis
      by (simp add: reader_loop_blocks)
  next
    case (Raw r e data)
    show ?thesis
    proof (cases "r < 0")
      case True
      with Raw show ?thesis
        by (simp add: reader_loop_fail)
    next
      case False
      then have r: "0 \<le> r" by simp
      show ?thesis
      proof (cases "r = 0 \<or> NUL \<in> set (take (bufIndex + nat r) (store bufIndex (snd ?g) data))")
        case True
        from reader_loop_stop [OF Raw r True, of w fd] less.prems r show ?thesis
          by auto
      next
        case stop: False
        then have nz: "r \<noteq> 0" and nonul: "NUL \<notin> set (take (bufIndex + nat r) (store bufIndex (snd ?g) data))"
          by auto
        note step = reader_loop_more [OF Raw r nz nonul, of w fd]
        from kernel_read_progress [OF Raw nz r] nz r
        have shorter: "length (drop (nat r) pending) < length pending"
          by auto
        from less.prems step r
        have "SysRead fd' c r0 \<in> set (snd (reader_loop w fd (fst ?g) (bufIndex + nat r)
                (store bufIndex (snd ?g) data) (drop (nat r) pending) closed (tl sched)))"
          by auto
        from less.hyps [OF shorter this less.prems(2)] step show ?thesis
          by simp
      qed
    qed
  qed
qed

lemma reader_loop_closes:
  "fst (reader_loop w fd bufSize bufIndex buf pending closed sched) = Some b \<Longrightarrow> b \<noteq> [] \<Longrightarrow>
   snd (reader_loop w fd bufSize bufIndex buf pending closed sched) \<noteq> [] \<and>
   last (snd (reader_loop w fd bufSize bufIndex buf pending closed sched)) = SysClose fd"
proof (induction "length pending" arbitrary: bufSize bufIndex buf pending sched rule: less_induct)
  case less
  let ?g = "grow bufSize bufIndex buf"
  let ?count = "length (snd ?g) - bufIndex"
  show ?case
  proof (cases "kernel_read pending closed ?count sched")
    case Blocks
    with less.prems show ?thesis
      by (simp add: reader_loop_blocks)
  next
    case (Raw r e data)
    show ?thesis
    proof (cases "r < 0")
      case True
      with Raw less.prems show ?thesis
        by (simp add: reader_loop_fail)
    next
      case False
      then have r: "0 \<le> r" by simp
      show ?thesis
      proof (cases "r = 0 \<or> NUL \<in> set (take (bufIndex + nat r) (store bufIndex (snd ?g) data))")
        case True
        from reader_loop_stop [OF Raw r True, of w fd] show ?thesis
          by simp
      next
        case stop: False
        then have nz: "r \<noteq> 0" and nonul: "NUL \<notin> set (take (bufIndex + nat r) (store bufIndex (snd ?g) data))"
          by auto
        note step = reader_loop_more [OF Raw r nz nonul, of w fd]
        from kernel_read_progress [OF Raw nz r] nz r
        have shorter: "length (drop (nat r) pending) < length pending"
          by auto
        from less.prems step
        have "fst (reader_loop w fd (fst ?g) (bufIndex + nat r)
                (store bufIndex (snd ?g) data) (drop (nat r) pending) closed (tl sched)) = Some b"
          by simp
        from less.hyps [OF shorter this less.prems(2)] step show ?thesis
          by simp
      qed
    qed
  qed
qed


subsection \<open>A message that ends at its only zero byte is delivered whole\<close>

lemma grow_facts:
  assumes "length buf = bufSize" "bufIndex \<le> bufSize" "0 < bufSize"
  shows "length (snd (grow bufSize bufIndex buf)) = fst (grow bufSize bufIndex buf)"
    and "bufIndex < fst (grow bufSize bufIndex buf)"
    and "take bufIndex (snd (grow bufSize bufIndex buf)) = take bufIndex buf"
  using assms by (auto simp: grow_def)

lemma kernel_read_data:
  assumes "\<forall>e. Inl e \<notin> set sched" "pending \<noteq> []" "0 < count"
  shows "\<exists>k. 0 < k \<and> k \<le> count \<and>
           kernel_read pending closed count sched = Raw (int (length (take k pending))) 0 (take k pending)"
proof (cases sched)
  case Nil
  with assms show ?thesis
    by (intro exI [of _ count]) (simp add: kernel_read_def)
next
  case (Cons a rest)
  with assms(1) obtain k where "a = Inr k"
    by (cases a) auto
  with Cons assms show ?thesis
    by (intro exI [of _ "min count (max 1 k)"]) (simp add: kernel_read_def Let_def max_def)
qed

lemma store_take:
  "bufIndex \<le> length buf \<Longrightarrow>
   take (bufIndex + length data) (store bufIndex buf data) = take bufIndex buf @ data"
  by (simp add: store_def)

lemma store_length:
  "bufIndex + length data \<le> length buf \<Longrightarrow> length (store bufIndex buf data) = length buf"
  by (simp add: store_def)

lemma take_reaches_sentinel:
  assumes "xs \<noteq> []" "NUL \<notin> set (butlast xs)" "NUL \<in> set (take k xs)"
  shows "take k xs = xs"
proof (rule ccontr)
  assume "take k xs \<noteq> xs"
  then have "k < length xs" by (meson not_le take_all)
  then have "take k xs = take k (butlast xs)"
    by (simp add: take_butlast)
  with assms(3) have "NUL \<in> set (butlast xs)"
    by (auto dest: in_set_takeD)
  with assms(2) show False by simp
qed

lemma reader_loop_delivers:
  assumes "\<forall>e. Inl e \<notin> set sched" "pending \<noteq> []" "last pending = NUL"
    "NUL \<notin> set (butlast pending)" "NUL \<notin> set (take bufIndex buf)"
    "length buf = bufSize" "bufIndex \<le> bufSize" "0 < bufSize"
  shows "fst (reader_loop w fd bufSize bufIndex buf pending closed sched) =
           Some (take bufIndex buf @ pending)"
  using assms
proof (induction "length pending" arbitrary: bufSize bufIndex buf pending sched rule: less_induct)
  case less
  let ?g = "grow bufSize bufIndex buf"
  let ?count = "length (snd ?g) - bufIndex"
  note g = grow_facts [OF less.prems(6,7,8)]
  from g have count: "0 < ?count" by simp
  from kernel_read_data [OF less.prems(1,2) count, of closed]
  obtain k where k: "0 < k" "k \<le> ?count"
    and kr: "kernel_read pending closed ?count sched = Raw (int (length (take k pending))) 0 (take k pending)"
    by blast
  let ?data = "take k pending"
  let ?buf = "store bufIndex (snd ?g) ?data"
  have n: "0 < length ?data" "length ?data \<le> k"
    using k less.prems(2) by auto
  have tk: "take (bufIndex + length ?data) ?buf = take bufIndex buf @ ?data"
    using store_take [of bufIndex "snd ?g" ?data] g by simp
  have len: "length ?buf = fst ?g"
    using store_length [of bufIndex ?data "snd ?g"] g k n by simp
  show ?case
  proof (cases "NUL \<in> set ?data")
    case True
    from take_reaches_sentinel [OF less.prems(2,4) True] have whole: "?data = pending" .
    have "NUL \<in> set (take (bufIndex + nat (int (length ?data))) ?buf)"
      using tk True by simp
    from reader_loop_stop [OF kr _ disjI2, OF _ this, of w fd] tk whole show ?thesis
      by simp
  next
    case False
    have short: "k < length pending"
    proof (rule ccontr)
      assume "\<not> k < length pending"
      then have "?data = pending" by simp
      with less.prems(2,3) have "NUL \<in> set ?data"
        by (metis last_in_set)
      with False show False by simp
    qed
    then have lk: "length ?data = k" by simp
    have nonul: "NUL \<notin> set (take (bufIndex + nat (int (length ?data))) ?buf)"
      using tk False less.prems(5) by simp
    have nz: "int (length ?data) \<noteq> 0"
      using n by simp
    note step = reader_loop_more [OF kr _ nz nonul, of w fd, simplified]
    let ?rest = "drop k pending"
    have r1: "length ?rest < length pending" using k short by simp
    have r2: "\<forall>e. Inl e \<notin> set (tl sched)"
      using less.prems(1) by (cases sched) auto
    have r3: "?rest \<noteq> []" using short by simp
    have r4: "last ?rest = NUL" using short less.prems(3) by simp
    have r5: "NUL \<notin> set (butlast ?rest)"
      using less.prems(4) by (auto simp: butlast_drop dest: in_set_dropD)
    have r6: "NUL \<notin> set (take (bufIndex + k) ?buf)"
      using nonul lk by simp
    have r7: "bufIndex + k \<le> fst ?g" using k g by simp
    have r8: "0 < fst ?g" using g by simp
    from less.hyps [OF r1 r2 r3 r4 r5 r6 len r7 r8]
    have "fst (reader_loop w fd (fst ?g) (bufIndex + k) ?buf ?rest closed (tl sched)) =
            Some (take (bufIndex + k) ?buf @ ?rest)" .
    with step tk lk show ?thesis
      by simp
  qed
qed

subsection \<open>The decoder on a terminated message\<close>

lemma decode_snoc:
  "decode w (out @ [NUL]) =
    (if HasPrefix out ''err:'' then Return None (Some (New (TrimPrefix out ''err:'')))
     else if HasPrefix out ''ok:'' then
       (case json_Unmarshal w (TrimPrefix out ''ok:'') of
          Inl err \<Rightarrow> Return None (Some err)
        | Inr unmarshalled \<Rightarrow> Return (Some unmarshalled) None)
     else Return None (Some (New (''unknown response: '' @ out))))"
  by (simp add: decode_def nth_append Let_def)

lemma decode_err: "decode w (''err:'' @ text @ [NUL]) = Return None (Some (New text))"
  using decode_snoc [of w "''err:'' @ text"] by (simp add: HasPrefix_def TrimPrefix_def)

lemma decode_ok:
  "json_Unmarshal w base = Inr v \<Longrightarrow> decode w (''ok:'' @ base @ [NUL]) = Return (Some v) None"
  using decode_snoc [of w "''ok:'' @ base"] by (simp add: HasPrefix_def TrimPrefix_def)

subsection \<open>The fields of the parent's run\<close>

lemma parent_branch_delivered:
  "delivered (parent_branch w pipes pid c) =
     fst (reader_loop w (fst pipes) 256 0 (replicate 256 NUL) (sent c) (exited c) (reads w))"
  by (simp add: parent_branch_def split: prod.splits)

lemma parent_branch_reader_trace:
  "reader_trace (parent_branch w pipes pid c) =
     snd (reader_loop w (fst pipes) 256 0 (replicate 256 NUL) (sent c) (exited c) (reads w))"
  by (simp add: parent_branch_def split: prod.splits)

lemma parent_branch_child: "child (parent_branch w pipes pid c) = Some c"
  by (simp add: parent_branch_def split: prod.splits)

lemma parent_branch_outcome:
  "outcome (parent_branch w pipes pid c) =
    (if delivered (parent_branch w pipes pid c) \<noteq> None \<and> \<not> deadline_first w
     then decode w (the (delivered (parent_branch w pipes pid c)))
     else Return None (Some (New ''ForkAndSwitchToNamespace timed out'')))"
  by (simp add: parent_branch_def split: prod.splits)

lemma parent_branch_main_trace:
  "main_trace (parent_branch w pipes pid c) =
    (if delivered (parent_branch w pipes pid c) \<noteq> None \<and> \<not> deadline_first w
     then [SysPipe, SysFork, SysClose (snd pipes)]
     else [SysPipe, SysFork, SysClose (snd pipes), SysKill pid SIGINT] @
          (case kill_result w of
             None \<Rightarrow> []
           | Some e \<Rightarrow> [LogWarnf (''failed to kill setns process: '' @ strerror w e)]))"
  by (simp add: parent_branch_def split: prod.splits)

lemma parent_gets_message:
  assumes "sent c = body @ [NUL]" "NUL \<notin> set body" "\<forall>e. Inl e \<notin> set (reads w)"
  shows "delivered (parent_branch w pipes pid c) = Some (body @ [NUL])"
proof -
  have "fst (reader_loop w (fst pipes) 256 0 (replicate 256 NUL) (body @ [NUL]) (exited c) (reads w)) =
          Some (take 0 (replicate 256 NUL) @ body @ [NUL])"
    using assms(2,3) by (intro reader_loop_delivers) simp_all
  with assms(1) show ?thesis
    by (simp add: parent_branch_delivered)
qed

subsection \<open>The child\<close>

lemma opened_append: "opened (xs @ ys) = opened xs @ opened ys"
  by (induction xs rule: opened.induct) simp_all

lemma joined_append: "joined (xs @ ys) = joined xs @ joined ys"
  by (induction xs rule: joined.induct) simp_all

lemma write_loop_opened: "opened (snd (write_loop fd msg written sched)) = []"
proof -
  have "\<forall>ev \<in> set tr. \<exists>p. ev = SysWrite fd p \<Longrightarrow> opened tr = []" for tr
    by (induction tr rule: opened.induct) auto
  then show ?thesis
    by (blast dest: write_loop_events)
qed

lemma write_loop_joined: "joined (snd (write_loop fd msg written sched)) = []"
proof -
  have "\<forall>ev \<in> set tr. \<exists>p. ev = SysWrite fd p \<Longrightarrow> joined tr = []" for tr
    by (induction tr rule: joined.induct) auto
  then show ?thesis
    by (blast dest: write_loop_events)
qed

lemma switchNs_net_failure:
  assumes "net_failure w = Some (step, e)"
  shows "fst (switchNs w mountNs netNs) = Some (Wrapf (Errno e) (''failed to '' @ step @ '' net namespace''))"
    and "opened (snd (switchNs w mountNs netNs)) = [netNs]"
    and "CLONE_NEWNS \<notin> set (joined (snd (switchNs w mountNs netNs)))"
    and "CallToExecute \<notin> set (snd (switchNs w mountNs netNs))"
  using assms
  by (auto simp: net_failure_def switchNs_def open_raw_def openat_def setns_def close_raw_def
        Let_def CLONE_NEWNS_def CLONE_NEWNET_def split: if_splits)

lemma child_branch_failed_switch:
  assumes "fst (switchNs w mountNs netNs) = Some err"
  shows "child_msg (child_branch w mountNs netNs pipes toExecute) =
           Some (''err:'' @ Error (strerror w) err @ [NUL])"
    and "child_trace (child_branch w mountNs netNs pipes toExecute) =
           snd (switchNs w mountNs netNs) @
           snd (write_loop (snd pipes) (''err:'' @ Error (strerror w) err @ [NUL]) 0 (writes w)) @
           [SysClose (snd pipes), SysExitGroup]"
  using assms
  by (auto simp: child_branch_def encode_msg_def Let_def split: prod.splits)

lemma child_branch_ran_logic:
  assumes "fst (switchNs w mountNs netNs) = None"
  shows "child_msg (child_branch w mountNs netNs pipes (Some (out, err))) = Some (encode_msg w out err)"
    and "child_trace (child_branch w mountNs netNs pipes (Some (out, err))) =
           snd (switchNs w mountNs netNs) @ [CallToExecute] @
           snd (write_loop (snd pipes) (encode_msg w out err) 0 (writes w)) @
           [SysClose (snd pipes), SysExitGroup]"
  using assms
  by (auto simp: child_branch_def Let_def split: prod.splits)

lemma child_branch_sends_all:
  assumes "child_msg (child_branch w mountNs netNs pipes toExecute) = Some msg"
    "\<forall>e. Inl e \<notin> set (writes w)"
  shows "sent (child_branch w mountNs netNs pipes toExecute) = msg"
proof -
  have "fst (write_loop (snd pipes) m 0 (writes w)) = length m" for m
    using assms(2) by (intro write_loop_all) simp_all
  then have "write_loop (snd pipes) m 0 (writes w) = (x, y) \<Longrightarrow> x = length m" for m x y
    by (metis fst_conv)
  with assms(1) show ?thesis
    by (auto simp: child_branch_def Let_def split: prod.splits if_splits)
qed

subsection \<open>From the logic to the parent\<close>

lemma logic_result_reaches_parent:
  assumes "in_parent w ns pipes pid"
    and "fst (switchNs w (filepath_Join w ns ''mnt'') (filepath_Join w ns ''net'')) = None"
    and "encode_msg w out err = body @ [NUL]" and "NUL \<notin> set body"
    and "\<forall>e. Inl e \<notin> set (writes w)" and "\<forall>e. Inl e \<notin> set (reads w)"
  shows "delivered (ForkAndSwitchToNamespace w ns (Some (out, err))) = Some (body @ [NUL])"
proof -
  let ?c = "the_child w ns pipes (Some (out, err))"
  have "child_msg ?c = Some (body @ [NUL])"
    using child_branch_ran_logic(1) [OF assms(2), of pipes out err] assms(3)
    by (simp add: the_child_def)
  then have "sent ?c = body @ [NUL]"
    unfolding the_child_def using assms(5) by (rule child_branch_sends_all)
  from parent_gets_message [OF this assms(4,6)] show ?thesis
    by (simp add: in_parent_run [OF assms(1)])
qed

subsection \<open>The fork, the descriptors and the outcomes\<close>

lemma switch_error_reaches_parent:
  assumes "in_parent w ns pipes pid"
    and "fst (switchNs w (filepath_Join w ns ''mnt'') (filepath_Join w ns ''net'')) = Some err"
    and "NUL \<notin> set (Error (strerror w) err)"
    and "\<forall>e. Inl e \<notin> set (writes w)" and "\<forall>e. Inl e \<notin> set (reads w)"
  shows "delivered (ForkAndSwitchToNamespace w ns toExecute) =
           Some ((''err:'' @ Error (strerror w) err) @ [NUL])"
proof -
  let ?c = "the_child w ns pipes toExecute"
  have "child_msg ?c = Some ((''err:'' @ Error (strerror w) err) @ [NUL])"
    using child_branch_failed_switch(1) [OF assms(2), of pipes toExecute]
    by (simp add: the_child_def)
  then have s: "sent ?c = (''err:'' @ Error (strerror w) err) @ [NUL]"
    unfolding the_child_def using assms(4) by (rule child_branch_sends_all)
  have "NUL \<notin> set (''err:'' @ Error (strerror w) err)"
    using assms(3) by simp
  from parent_gets_message [OF s this assms(5)] show ?thesis
    by (simp add: in_parent_run [OF assms(1)])
qed

lemma fork_is_attempted:
  "SysFork \<in> set (main_trace (ForkAndSwitchToNamespace w ns toExecute)) \<longleftrightarrow>
     NUL \<notin> set (filepath_Join w ns ''mnt'') \<and> NUL \<notin> set (filepath_Join w ns ''net'') \<and>
     (\<exists>pipes. pipe_result w = Inr pipes)"
  by (auto simp: ForkAndSwitchToNamespace_def BytePtrFromString_def early_def
        parent_branch_main_trace split: sum.splits prod.splits)

lemma switchNs_closes:
  "SysClose x \<in> set (snd (switchNs w mountNs netNs)) \<Longrightarrow> x = fst (open_net w) \<or> x = fst (open_mnt w)"
  by (auto simp: switchNs_def open_raw_def openat_def Let_def split: if_splits)

lemma child_branch_closes:
  assumes "SysClose x \<in> set (child_trace (child_branch w mountNs netNs pipes toExecute))"
  shows "x = snd pipes \<or> x = fst (open_net w) \<or> x = fst (open_mnt w)"
proof -
  obtain err tr1 where sw: "switchNs w mountNs netNs = (err, tr1)"
    by (cases "switchNs w mountNs netNs")
  have tr1: "SysClose x \<in> set tr1 \<Longrightarrow> x = fst (open_net w) \<or> x = fst (open_mnt w)"
    using switchNs_closes [of x w mountNs netNs] sw by simp
  have wl: "SysClose x \<notin> set (snd (write_loop fd msg n sched))" for fd msg n sched
    by (auto dest: write_loop_events)
  then have wl': "write_loop fd msg n sched = (a, tr3) \<Longrightarrow> SysClose x \<notin> set tr3" for fd msg n sched a tr3
    by (metis snd_conv)
  from assms sw tr1 wl' show ?thesis
    by (auto simp: child_branch_def Let_def split: if_splits prod.splits)
qed

lemma child_branch_exit:
  "exited (child_branch w mountNs netNs pipes toExecute) \<Longrightarrow>
   \<exists>tr. child_trace (child_branch w mountNs netNs pipes toExecute) = tr @ [SysClose (snd pipes), SysExitGroup]"
  by (auto simp: child_branch_def Let_def split: if_splits prod.splits)

text \<open>
  What the parent can give its caller: a result and no error, an error and no result,
  or, on the empty buffer alone, a panic.
\<close>

lemma parent_outcome_cases:
  assumes "in_parent w ns pipes pid"
  shows "(delivered (ForkAndSwitchToNamespace w ns toExecute) = Some [] \<and> \<not> deadline_first w \<and>
          outcome (ForkAndSwitchToNamespace w ns toExecute) = Panic ''runtime error: index out of range [-1]'') \<or>
         (\<exists>v. outcome (ForkAndSwitchToNamespace w ns toExecute) = Return (Some v) None) \<or>
         (\<exists>e. outcome (ForkAndSwitchToNamespace w ns toExecute) = Return None (Some e))"
  by (auto simp: in_parent_run [OF assms] parent_branch_outcome decode_def Let_def split: sum.splits)

section \<open>The claims\<close>

text \<open>
  Claim C6. In the child, when a step on the network namespace fails (the open of the
  net handle, the join, or the close), no step on the mount namespace is made and the
  caller's logic is not run: the only path opened is the net handle, no \<^verbatim>\<open>setns\<close>
  asks for the mount namespace, and the logic is not called. The message for the parent
  names the step, \<^verbatim>\<open>err:failed to <step> net namespace: <errno text>\<close>, and the parent's
  decoder turns it into an error with that text. The error does reach the parent: when
  no write fails the child puts the whole message on the pipe; the child of a call is
  this child; and when moreover no read fails and the errno text has no zero byte, the
  reader delivers that message and a call whose reader is first returns \<^verbatim>\<open>nil\<close> and
  the error \<^verbatim>\<open>failed to <step> net namespace: <errno text>\<close>.
\<close>

theorem net_failure_skips_mount_and_logic:
  assumes "net_failure w = Some (step, e)"
  shows "opened (child_trace (child_branch w mountNs netNs pipes toExecute)) = [netNs] \<and>
         CLONE_NEWNS \<notin> set (joined (child_trace (child_branch w mountNs netNs pipes toExecute))) \<and>
         CallToExecute \<notin> set (child_trace (child_branch w mountNs netNs pipes toExecute)) \<and>
         child_msg (child_branch w mountNs netNs pipes toExecute) =
           Some (''err:failed to '' @ step @ '' net namespace: '' @ strerror w e @ [NUL]) \<and>
         decode w (''err:failed to '' @ step @ '' net namespace: '' @ strerror w e @ [NUL]) =
           Return None (Some (New (''failed to '' @ step @ '' net namespace: '' @ strerror w e))) \<and>
         ((\<forall>x. Inl x \<notin> set (writes w)) \<longrightarrow>
            sent (child_branch w mountNs netNs pipes toExecute) =
              ''err:failed to '' @ step @ '' net namespace: '' @ strerror w e @ [NUL]) \<and>
         (in_parent w ns pipes pid \<longrightarrow>
            child (ForkAndSwitchToNamespace w ns toExecute) =
              Some (child_branch w (filepath_Join w ns ''mnt'') (filepath_Join w ns ''net'') pipes toExecute)) \<and>
         (in_parent w ns pipes pid \<and> (\<forall>x. Inl x \<notin> set (writes w)) \<and> (\<forall>x. Inl x \<notin> set (reads w)) \<and>
          NUL \<notin> set (strerror w e) \<longrightarrow>
            delivered (ForkAndSwitchToNamespace w ns toExecute) =
              Some (''err:failed to '' @ step @ '' net namespace: '' @ strerror w e @ [NUL]) \<and>
            (\<not> deadline_first w \<longrightarrow>
               outcome (ForkAndSwitchToNamespace w ns toExecute) =
                 Return None (Some (New (''failed to '' @ step @ '' net namespace: '' @ strerror w e)))))"
proof -
  let ?err = "Wrapf (Errno e) (''failed to '' @ step @ '' net namespace'')"
  let ?text = "''failed to '' @ step @ '' net namespace: '' @ strerror w e"
  let ?msg = "''err:failed to '' @ step @ '' net namespace: '' @ strerror w e @ [NUL]"
  let ?c = "child_branch w mountNs netNs pipes toExecute"
  let ?r = "ForkAndSwitchToNamespace w ns toExecute"
  note sw = switchNs_net_failure [OF assms, of mountNs netNs]
  note ch = child_branch_failed_switch [OF sw(1), of pipes toExecute]
  have "opened (child_trace ?c) = [netNs]"
    by (simp add: ch(2) opened_append sw(2) write_loop_opened)
  moreover have "CLONE_NEWNS \<notin> set (joined (child_trace ?c))"
    using sw(3) by (simp add: ch(2) joined_append write_loop_joined)
  moreover have "CallToExecute \<notin> set (child_trace ?c)"
    using sw(4) by (auto simp: ch(2) dest: write_loop_events)
  moreover have msg: "child_msg ?c = Some ?msg"
    by (simp add: ch(1))
  moreover have dec: "decode w ?msg = Return None (Some (New ?text))"
    using decode_err [of w ?text] by simp
  moreover have "sent ?c = ?msg" if "\<forall>x. Inl x \<notin> set (writes w)"
    using msg that by (rule child_branch_sends_all)
  moreover have "child ?r =
      Some (child_branch w (filepath_Join w ns ''mnt'') (filepath_Join w ns ''net'') pipes toExecute)"
    if "in_parent w ns pipes pid"
    by (simp add: in_parent_run [OF that] parent_branch_child the_child_def)
  moreover have "delivered ?r = Some ?msg \<and> (\<not> deadline_first w \<longrightarrow> outcome ?r = Return None (Some (New ?text)))"
    if a: "in_parent w ns pipes pid \<and> (\<forall>x. Inl x \<notin> set (writes w)) \<and> (\<forall>x. Inl x \<notin> set (reads w)) \<and>
           NUL \<notin> set (strerror w e)"
  proof -
    from a have p: "in_parent w ns pipes pid" and ws: "\<forall>x. Inl x \<notin> set (writes w)"
      and rs: "\<forall>x. Inl x \<notin> set (reads w)"
      by simp_all
    have z: "NUL \<notin> set (Error (strerror w) ?err)"
      using a assms by (auto simp: net_failure_def split: if_splits)
    from switch_error_reaches_parent [OF p switchNs_net_failure(1) [OF assms] z ws rs, of toExecute]
    have d: "delivered ?r = Some ?msg"
      by simp
    with dec show ?thesis
      by (simp add: in_parent_run [OF p] parent_branch_outcome)
  qed
  ultimately show ?thesis by blast
qed

theorem net_failure_skips_mount_and_logic_witness:
  "net_failure (calm_world\<lparr>open_net := (- 1, 2)\<rparr>) = Some (''open'', 2) \<and>
   opened (child_trace (child_branch (calm_world\<lparr>open_net := (- 1, 2)\<rparr>)
     ''/proc/7/ns/mnt'' ''/proc/7/ns/net'' (3, 4) (Some (Some True, None)))) = [''/proc/7/ns/net''] \<and>
   child_msg (child_branch (calm_world\<lparr>open_net := (- 1, 2)\<rparr>)
     ''/proc/7/ns/mnt'' ''/proc/7/ns/net'' (3, 4) (Some (Some True, None))) =
     Some (''err:failed to open net namespace: no such file or directory'' @ [NUL]) \<and>
   sent (child_branch (calm_world\<lparr>open_net := (- 1, 2)\<rparr>)
     ''/proc/7/ns/mnt'' ''/proc/7/ns/net'' (3, 4) (Some (Some True, None))) =
     ''err:failed to open net namespace: no such file or directory'' @ [NUL] \<and>
   in_parent (calm_world\<lparr>open_net := (- 1, 2)\<rparr>) ''/proc/7/ns'' (3, 4) 1234 \<and>
   delivered (ForkAndSwitchToNamespace (calm_world\<lparr>open_net := (- 1, 2)\<rparr>) ''/proc/7/ns''
     (Some (Some True, None))) =
     Some (''err:failed to open net namespace: no such file or directory'' @ [NUL]) \<and>
   outcome (ForkAndSwitchToNamespace (calm_world\<lparr>open_net := (- 1, 2)\<rparr>) ''/proc/7/ns''
     (Some (Some True, None))) =
     Return None (Some (New ''failed to open net namespace: no such file or directory''))"
proof -
  let ?w = "calm_world\<lparr>open_net := (- 1, 2)\<rparr>"
  have h: "net_failure ?w = Some (''open'', 2)"
    by (simp add: net_failure_def calm_world_def)
  have p: "in_parent ?w ''/proc/7/ns'' (3, 4) 1234"
    by (simp add: in_parent_def calm_world_def)
  have io: "(\<forall>x. Inl x \<notin> set (writes ?w)) \<and> (\<forall>x. Inl x \<notin> set (reads ?w)) \<and>
      NUL \<notin> set (strerror ?w 2) \<and> \<not> deadline_first ?w"
    by (simp add: calm_world_def)
  have t: "strerror ?w 2 = ''no such file or directory''"
    by (simp add: calm_world_def)
  from net_failure_skips_mount_and_logic [OF h, of "''/proc/7/ns/mnt''" "''/proc/7/ns/net''" "(3, 4)"
      "Some (Some True, None)" "''/proc/7/ns''" 1234] h p io
  show ?thesis
    unfolding t by simp
qed

text \<open>
  Claim C5. When the buffer the parent receives is not empty and does not end with the
  zero byte, the call fails with the error \<^verbatim>\<open>invalid termination character, not NUL\<close>,
  whatever the bytes before the last one are; this is so whenever the buffer is
  received before the deadline, and in no case is the result a success (a result
  pointer other than \<^verbatim>\<open>nil\<close>).
\<close>

theorem missing_sentinel_is_protocol_error:
  assumes "in_parent w ns pipes pid"
    and "delivered (ForkAndSwitchToNamespace w ns toExecute) = Some buf"
    and "buf \<noteq> []" and "last buf \<noteq> NUL"
  shows "(\<not> deadline_first w \<longrightarrow>
           outcome (ForkAndSwitchToNamespace w ns toExecute) =
             Return None (Some (New ''invalid termination character, not NUL''))) \<and>
         (\<forall>v err. outcome (ForkAndSwitchToNamespace w ns toExecute) \<noteq> Return (Some v) err)"
proof -
  have "decode w buf = Return None (Some (New ''invalid termination character, not NUL''))"
    using assms(3,4) by (simp add: decode_def last_conv_nth)
  with assms(2) show ?thesis
    by (simp add: in_parent_run [OF assms(1)] parent_branch_outcome)
qed

theorem missing_sentinel_is_protocol_error_witness:
  "delivered (ForkAndSwitchToNamespace (calm_world\<lparr>writes := [Inr 3, Inl 4]\<rparr>) ''/proc/7/ns''
      (Some (Some True, None))) = Some ''ok:'' \<and>
   outcome (ForkAndSwitchToNamespace (calm_world\<lparr>writes := [Inr 3, Inl 4]\<rparr>) ''/proc/7/ns''
      (Some (Some True, None))) = Return None (Some (New ''invalid termination character, not NUL''))"
proof -
  let ?w = "calm_world\<lparr>writes := [Inr 3, Inl 4]\<rparr>"
  have p: "in_parent ?w ''/proc/7/ns'' (3, 4) 1234"
    by (simp add: in_parent_def calm_world_def)
  have d: "delivered (ForkAndSwitchToNamespace ?w ''/proc/7/ns'' (Some (Some True, None))) = Some ''ok:''"
    by code_simp
  have n: "\<not> deadline_first ?w"
    by (simp add: calm_world_def)
  from missing_sentinel_is_protocol_error [OF p d] n d show ?thesis
    by simp
qed

text \<open>
  Claim C4. When the deadline comes before the reader delivers (or the reader never
  delivers), the call returns the timeout error. The parent makes exactly one more
  call, \<^verbatim>\<open>kill(pid, SIGINT)\<close> on the child's pid; a failed kill adds a warning to the
  log and changes nothing of the result. Nothing is decoded: the result is the same
  whatever the reader holds.
\<close>

theorem timeout_returns_error_and_signals:
  assumes "in_parent w ns pipes pid"
    and "deadline_first w \<or> delivered (ForkAndSwitchToNamespace w ns toExecute) = None"
  shows "outcome (ForkAndSwitchToNamespace w ns toExecute) =
           Return None (Some (New ''ForkAndSwitchToNamespace timed out'')) \<and>
         main_trace (ForkAndSwitchToNamespace w ns toExecute) =
           [SysPipe, SysFork, SysClose (snd pipes), SysKill pid SIGINT] @
           (case kill_result w of
              None \<Rightarrow> []
            | Some e \<Rightarrow> [LogWarnf (''failed to kill setns process: '' @ strerror w e)])"
  using assms(2)
  by (auto simp: in_parent_run [OF assms(1)] parent_branch_outcome parent_branch_main_trace)

theorem timeout_returns_error_and_signals_witness:
  "deadline_first (calm_world\<lparr>deadline_first := True, kill_result := Some 3\<rparr>) \<and>
   outcome (ForkAndSwitchToNamespace (calm_world\<lparr>deadline_first := True, kill_result := Some 3\<rparr>)
      ''/proc/7/ns'' (Some (Some True, None))) =
     Return None (Some (New ''ForkAndSwitchToNamespace timed out'')) \<and>
   main_trace (ForkAndSwitchToNamespace (calm_world\<lparr>deadline_first := True, kill_result := Some 3\<rparr>)
      ''/proc/7/ns'' (Some (Some True, None))) =
     [SysPipe, SysFork, SysClose 4, SysKill 1234 SIGINT, LogWarnf ''failed to kill setns process: errno'']"
proof -
  let ?w = "calm_world\<lparr>deadline_first := True, kill_result := Some 3\<rparr>"
  have p: "in_parent ?w ''/proc/7/ns'' (3, 4) 1234"
    by (simp add: in_parent_def calm_world_def)
  have d: "deadline_first ?w"
    by (simp add: calm_world_def)
  from timeout_returns_error_and_signals [OF p disjI1, OF d, of "Some (Some True, None)"] d
  show ?thesis
    by (simp add: calm_world_def)
qed

text \<open>
  Claim C9. The reader delivers an empty buffer when a read on the pipe fails, and when
  the pipe is at its end before any byte has come (the child wrote nothing and is
  gone). A parent that receives the empty buffer before the deadline indexes it at
  \<open>len(buf) - 1\<close> and panics: the call returns nothing.
\<close>

theorem empty_delivery_panics:
  assumes "in_parent w ns pipes pid"
  shows "((\<exists>fd count r. r < 0 \<and> SysRead fd count r \<in> set (reader_trace (ForkAndSwitchToNamespace w ns toExecute))) \<longrightarrow>
            delivered (ForkAndSwitchToNamespace w ns toExecute) = Some []) \<and>
         ((\<exists>c. child (ForkAndSwitchToNamespace w ns toExecute) = Some c \<and> sent c = [] \<and> exited c) \<and>
            (\<forall>e rest. reads w \<noteq> Inl e # rest) \<longrightarrow>
            delivered (ForkAndSwitchToNamespace w ns toExecute) = Some []) \<and>
         (delivered (ForkAndSwitchToNamespace w ns toExecute) = Some [] \<and> \<not> deadline_first w \<longrightarrow>
            outcome (ForkAndSwitchToNamespace w ns toExecute) =
              Panic ''runtime error: index out of range [-1]'')"
proof -
  note run = in_parent_run [OF assms, of toExecute]
  have a: "delivered (ForkAndSwitchToNamespace w ns toExecute) = Some []"
    if "r < 0" "SysRead fd count r \<in> set (reader_trace (ForkAndSwitchToNamespace w ns toExecute))"
    for fd count r
    using that reader_loop_failed_read [of fd count r]
    by (simp add: run parent_branch_reader_trace parent_branch_delivered)
  have eof: "kernel_read [] True count sched = Raw 0 0 []" if "\<forall>e rest. sched \<noteq> Inl e # rest"
    for count sched
    using that by (auto simp: kernel_read_def split: list.splits sum.splits)
  have b: "delivered (ForkAndSwitchToNamespace w ns toExecute) = Some []"
    if "child (ForkAndSwitchToNamespace w ns toExecute) = Some c" "sent c = []" "exited c"
      "\<forall>e rest. reads w \<noteq> Inl e # rest" for c
  proof -
    from that(1) have c: "c = the_child w ns pipes toExecute"
      by (simp add: run parent_branch_child)
    have "fst (reader_loop w (fst pipes) 256 0 (replicate 256 NUL) [] True (reads w)) = Some []"
      by (subst reader_loop_stop [where r = 0 and e = 0 and data = "[]"])
        (simp_all add: eof [OF that(4)])
    with that(2,3) show ?thesis
      by (simp add: run parent_branch_delivered c [symmetric])
  qed
  have c: "outcome (ForkAndSwitchToNamespace w ns toExecute) = Panic ''runtime error: index out of range [-1]''"
    if "delivered (ForkAndSwitchToNamespace w ns toExecute) = Some []" "\<not> deadline_first w"
    using that by (simp add: run parent_branch_outcome decode_def)
  from a b c show ?thesis by blast
qed

theorem empty_delivery_panics_witness:
  "SysRead 3 256 (- 1) \<in> set (reader_trace (ForkAndSwitchToNamespace (calm_world\<lparr>reads := [Inl 5]\<rparr>)
      ''/proc/7/ns'' (Some (Some True, None)))) \<and>
   outcome (ForkAndSwitchToNamespace (calm_world\<lparr>reads := [Inl 5]\<rparr>) ''/proc/7/ns''
      (Some (Some True, None))) = Panic ''runtime error: index out of range [-1]'' \<and>
   map_option sent (child (ForkAndSwitchToNamespace (calm_world\<lparr>writes := [Inl 4]\<rparr>) ''/proc/7/ns''
      (Some (Some True, None)))) = Some [] \<and>
   outcome (ForkAndSwitchToNamespace (calm_world\<lparr>writes := [Inl 4]\<rparr>) ''/proc/7/ns''
      (Some (Some True, None))) = Panic ''runtime error: index out of range [-1]''"
proof -
  let ?w = "calm_world\<lparr>reads := [Inl 5]\<rparr>"
  let ?v = "calm_world\<lparr>writes := [Inl 4]\<rparr>"
  have p: "in_parent ?w ''/proc/7/ns'' (3, 4) 1234"
    by (simp add: in_parent_def calm_world_def)
  have t: "SysRead 3 256 (- 1) \<in> set (reader_trace (ForkAndSwitchToNamespace ?w ''/proc/7/ns''
      (Some (Some True, None))))"
    by code_simp
  have n: "\<not> deadline_first ?w"
    by (simp add: calm_world_def)
  have one: "outcome (ForkAndSwitchToNamespace ?w ''/proc/7/ns'' (Some (Some True, None))) =
      Panic ''runtime error: index out of range [-1]''"
    using empty_delivery_panics [OF p, of "Some (Some True, None)"] t n
    by (meson neg_less_0_iff_less zero_less_one)
  have q: "in_parent ?v ''/proc/7/ns'' (3, 4) 1234"
    by (simp add: in_parent_def calm_world_def)
  have c: "child (ForkAndSwitchToNamespace ?v ''/proc/7/ns'' (Some (Some True, None))) =
      Some (the_child ?v ''/proc/7/ns'' (3, 4) (Some (Some True, None)))"
    by (simp add: in_parent_run [OF q] parent_branch_child)
  have s: "sent (the_child ?v ''/proc/7/ns'' (3, 4) (Some (Some True, None))) = []"
    by code_simp
  have x: "exited (the_child ?v ''/proc/7/ns'' (3, 4) (Some (Some True, None)))"
    by code_simp
  have r: "\<forall>e rest. reads ?v \<noteq> Inl e # rest"
    by (simp add: calm_world_def)
  have m: "\<not> deadline_first ?v"
    by (simp add: calm_world_def)
  have two: "outcome (ForkAndSwitchToNamespace ?v ''/proc/7/ns'' (Some (Some True, None))) =
      Panic ''runtime error: index out of range [-1]''"
    using empty_delivery_panics [OF q, of "Some (Some True, None)"] c s x r m
    by blast
  from t one c s two show ?thesis
    by simp
qed

text \<open>
  Claim C3. Let \<open>V\<close> be serializable: \<^verbatim>\<open>json.Marshal\<close> gives \<open>base\<close> (which, as JSON
  text, has no zero byte) and \<^verbatim>\<open>json.Unmarshal\<close> of \<open>base\<close> gives \<open>V\<close> back. The
  child's message for \<open>V\<close> is \<^verbatim>\<open>ok:\<close>, \<open>base\<close>, the zero byte, and the parent's decoder
  gives \<open>V\<close> on it. Hence a call whose switch works, whose logic returns \<open>V\<close>, whose
  writes and reads do not fail and whose reader is first returns \<open>V\<close> and no error,
  however the kernel cuts the message into pieces.
\<close>

theorem ok_message_round_trip:
  assumes "in_parent w ns pipes pid"
    and "fst (switchNs w (filepath_Join w ns ''mnt'') (filepath_Join w ns ''net'')) = None"
    and "json_Marshal w (Some V) = Inr base" and "json_Unmarshal w base = Inr V"
    and "NUL \<notin> set base"
    and "\<forall>e. Inl e \<notin> set (writes w)" and "\<forall>e. Inl e \<notin> set (reads w)"
    and "\<not> deadline_first w"
  shows "encode_msg w (Some V) None = ''ok:'' @ base @ [NUL] \<and>
         decode w (encode_msg w (Some V) None) = Return (Some V) None \<and>
         outcome (ForkAndSwitchToNamespace w ns (Some (Some V, None))) = Return (Some V) None"
proof -
  have enc: "encode_msg w (Some V) None = (''ok:'' @ base) @ [NUL]"
    using assms(3) by (simp add: encode_msg_def)
  have dec: "decode w ((''ok:'' @ base) @ [NUL]) = Return (Some V) None"
    using decode_ok [OF assms(4)] by simp
  have "NUL \<notin> set (''ok:'' @ base)"
    using assms(5) by simp
  from logic_result_reaches_parent [OF assms(1,2) enc this assms(6,7)]
  have "delivered (ForkAndSwitchToNamespace w ns (Some (Some V, None))) = Some ((''ok:'' @ base) @ [NUL])" .
  then have "outcome (ForkAndSwitchToNamespace w ns (Some (Some V, None))) = Return (Some V) None"
    using assms(8) dec by (simp add: in_parent_run [OF assms(1)] parent_branch_outcome)
  with enc dec show ?thesis by simp
qed

theorem ok_message_round_trip_witness:
  "json_Marshal calm_world (Some True) = Inr ''true'' \<and>
   json_Unmarshal calm_world ''true'' = Inr True \<and>
   outcome (ForkAndSwitchToNamespace (calm_world\<lparr>writes := [Inr 2, Inr 0], reads := [Inr 1, Inr 3]\<rparr>)
      ''/proc/7/ns'' (Some (Some True, None))) = Return (Some True) None"
proof -
  let ?w = "calm_world\<lparr>writes := [Inr 2, Inr 0], reads := [Inr 1, Inr 3]\<rparr>"
  have p: "in_parent ?w ''/proc/7/ns'' (3, 4) 1234"
    by (simp add: in_parent_def calm_world_def)
  have s: "fst (switchNs ?w (filepath_Join ?w ''/proc/7/ns'' ''mnt'') (filepath_Join ?w ''/proc/7/ns'' ''net'')) = None"
    by (simp add: switchNs_def calm_world_def open_raw_def openat_def setns_def close_raw_def)
  have m: "json_Marshal ?w (Some True) = Inr ''true''"
    by (simp add: calm_world_def bool_Marshal_def)
  have u: "json_Unmarshal ?w ''true'' = Inr True"
    by (simp add: calm_world_def bool_Unmarshal_def)
  have z: "NUL \<notin> set ''true''"
    by simp
  have ws: "\<forall>e. Inl e \<notin> set (writes ?w)"
    by (simp add: calm_world_def)
  have rs: "\<forall>e. Inl e \<notin> set (reads ?w)"
    by (simp add: calm_world_def)
  have n: "\<not> deadline_first ?w"
    by (simp add: calm_world_def)
  from ok_message_round_trip [OF p s m u z ws rs n] m u show ?thesis
    by (simp add: calm_world_def)
qed

text \<open>
  Claim C10. With \<^verbatim>\<open>json.Marshal\<close> of a \<^verbatim>\<open>nil\<close> pointer being \<^verbatim>\<open>null\<close>, and
  \<^verbatim>\<open>json.Unmarshal\<close> of \<^verbatim>\<open>null\<close> leaving the fresh zero value \<open>zero\<close> in place: when the
  logic returns \<^verbatim>\<open>(nil, nil)\<close>, the child sends \<^verbatim>\<open>ok:null\<close> and the zero byte, and the
  call returns a pointer to \<open>zero\<close>, not \<^verbatim>\<open>nil\<close>, with no error.
\<close>

theorem nil_result_becomes_zero_value:
  assumes "in_parent w ns pipes pid"
    and "fst (switchNs w (filepath_Join w ns ''mnt'') (filepath_Join w ns ''net'')) = None"
    and "json_Marshal w None = Inr ''null''" and "json_Unmarshal w ''null'' = Inr zero"
    and "\<forall>e. Inl e \<notin> set (writes w)" and "\<forall>e. Inl e \<notin> set (reads w)"
    and "\<not> deadline_first w"
  shows "map_option child_msg (child (ForkAndSwitchToNamespace w ns (Some (None, None)))) =
           Some (Some (''ok:null'' @ [NUL])) \<and>
         delivered (ForkAndSwitchToNamespace w ns (Some (None, None))) = Some (''ok:null'' @ [NUL]) \<and>
         outcome (ForkAndSwitchToNamespace w ns (Some (None, None))) = Return (Some zero) None"
proof -
  have enc: "encode_msg w None None = ''ok:null'' @ [NUL]"
    using assms(3) by (simp add: encode_msg_def)
  have msg: "map_option child_msg (child (ForkAndSwitchToNamespace w ns (Some (None, None)))) =
      Some (Some (''ok:null'' @ [NUL]))"
    using child_branch_ran_logic(1) [OF assms(2), of pipes None None] enc
    by (simp add: in_parent_run [OF assms(1)] parent_branch_child the_child_def)
  have dec: "decode w (''ok:null'' @ [NUL]) = Return (Some zero) None"
    using decode_ok [OF assms(4)] by simp
  have "NUL \<notin> set ''ok:null''"
    by simp
  from logic_result_reaches_parent [OF assms(1,2) enc this assms(5,6)]
  have del: "delivered (ForkAndSwitchToNamespace w ns (Some (None, None))) = Some (''ok:null'' @ [NUL])" .
  then have "outcome (ForkAndSwitchToNamespace w ns (Some (None, None))) = Return (Some zero) None"
    using assms(7) dec by (simp add: in_parent_run [OF assms(1)] parent_branch_outcome)
  with msg del show ?thesis by simp
qed

theorem nil_result_becomes_zero_value_witness:
  "json_Marshal calm_world None = Inr ''null'' \<and>
   json_Unmarshal calm_world ''null'' = Inr False \<and>
   outcome (ForkAndSwitchToNamespace calm_world ''/proc/7/ns'' (Some (None, None))) =
     Return (Some False) None"
proof -
  have p: "in_parent calm_world ''/proc/7/ns'' (3, 4) 1234"
    by (simp add: in_parent_def calm_world_def)
  have s: "fst (switchNs calm_world (filepath_Join calm_world ''/proc/7/ns'' ''mnt'')
      (filepath_Join calm_world ''/proc/7/ns'' ''net'')) = None"
    by (simp add: switchNs_def calm_world_def open_raw_def openat_def setns_def close_raw_def)
  have m: "json_Marshal calm_world None = Inr ''null''"
    by (simp add: calm_world_def bool_Marshal_def)
  have u: "json_Unmarshal calm_world ''null'' = Inr False"
    by (simp add: calm_world_def bool_Unmarshal_def)
  have ws: "\<forall>e. Inl e \<notin> set (writes calm_world)"
    by (simp add: calm_world_def)
  have rs: "\<forall>e. Inl e \<notin> set (reads calm_world)"
    by (simp add: calm_world_def)
  have n: "\<not> deadline_first calm_world"
    by (simp add: calm_world_def)
  from nil_result_becomes_zero_value [OF p s m u ws rs n] m u show ?thesis
    by simp
qed

text \<open>
  Claim C1 says that every call seen from the parent ends in exactly one of four
  outcomes, each of them a return. Here the second read on the pipe fails (errno 5) after
  two bytes have come: the reader logs the failure and sends \<^verbatim>\<open>nil\<close>, the parent
  indexes the empty buffer, and the call panics instead of returning.
\<close>

theorem failed_read_panics_in_parent:
  "in_parent (calm_world\<lparr>reads := [Inr 2, Inl 5]\<rparr>) ''/proc/7/ns'' (3, 4) 1234 \<and>
   reader_trace (ForkAndSwitchToNamespace (calm_world\<lparr>reads := [Inr 2, Inl 5]\<rparr>) ''/proc/7/ns''
     (Some (Some True, None))) =
     [SysRead 3 256 2, SysRead 3 254 (- 1), LogErrorf ''failed to read from setns pipe: errno''] \<and>
   outcome (ForkAndSwitchToNamespace (calm_world\<lparr>reads := [Inr 2, Inl 5]\<rparr>) ''/proc/7/ns''
     (Some (Some True, None))) = Panic ''runtime error: index out of range [-1]''"
  by code_simp

text \<open>
  Claim C7 says that a failed fork leaves no child, returns the wrapped error
  \<^verbatim>\<open>failed to fork\<close> and closes both descriptors of the pipe. Here the pipe is
  \<open>(3, 4)\<close> and the fork fails with errno 11: there is no child and the error is the
  wrapped one, but the calls made are the pipe and the fork only, so neither descriptor
  is closed.
\<close>

theorem fork_failure_leaves_pipe_open:
  "pipe_result (calm_world\<lparr>fork_result := (- 1, 11)\<rparr>) = Inr (3, 4) \<and>
   outcome (ForkAndSwitchToNamespace (calm_world\<lparr>fork_result := (- 1, 11)\<rparr>) ''/proc/7/ns''
     (Some (Some True, None))) = Return None (Some (Wrapf (Errno 11) ''failed to fork'')) \<and>
   child (ForkAndSwitchToNamespace (calm_world\<lparr>fork_result := (- 1, 11)\<rparr>) ''/proc/7/ns''
     (Some (Some True, None))) = None \<and>
   main_trace (ForkAndSwitchToNamespace (calm_world\<lparr>fork_result := (- 1, 11)\<rparr>) ''/proc/7/ns''
     (Some (Some True, None))) = [SysPipe, SysFork]"
  by code_simp

text \<open>
  Claim C2 says that a call whose \<^verbatim>\<open>net\<close> handle does not exist fails before any
  fork. Here the open of the net handle is refused with errno 2 (no such file): the fork
  is made all the same, a child exists, and the error the caller gets is the one the
  child sent over the pipe.
\<close>

theorem missing_net_handle_counterexample:
  "fst (open_net (calm_world\<lparr>open_net := (- 1, 2)\<rparr>)) < 0 \<and>
   SysFork \<in> set (main_trace (ForkAndSwitchToNamespace (calm_world\<lparr>open_net := (- 1, 2)\<rparr>)
     ''/proc/7/ns'' (Some (Some True, None)))) \<and>
   child (ForkAndSwitchToNamespace (calm_world\<lparr>open_net := (- 1, 2)\<rparr>)
     ''/proc/7/ns'' (Some (Some True, None))) \<noteq> None \<and>
   outcome (ForkAndSwitchToNamespace (calm_world\<lparr>open_net := (- 1, 2)\<rparr>)
     ''/proc/7/ns'' (Some (Some True, None))) =
     Return None (Some (New ''failed to open net namespace: no such file or directory''))"
  by code_simp

text \<open>
  Claim C2, amended. The parent never looks at the net handle. The fork is attempted
  exactly when both joined paths are free of zero bytes and the pipe is created. When
  the net handle cannot be opened, this shows in the child, after the fork: the child
  opens nothing else, does not call the logic and writes
  \<^verbatim>\<open>err:failed to open net namespace: <errno text>\<close> and the zero byte; and when no write
  and no read fails and the reader is first, the call returns the error with that text.
\<close>

theorem net_handle_is_opened_in_the_child:
  "(SysFork \<in> set (main_trace (ForkAndSwitchToNamespace w ns toExecute)) \<longleftrightarrow>
      NUL \<notin> set (filepath_Join w ns ''mnt'') \<and> NUL \<notin> set (filepath_Join w ns ''net'') \<and>
      (\<exists>pipes. pipe_result w = Inr pipes)) \<and>
   (in_parent w ns pipes pid \<and> fst (open_net w) < 0 \<longrightarrow>
      map_option (opened \<circ> child_trace) (child (ForkAndSwitchToNamespace w ns toExecute)) =
        Some [filepath_Join w ns ''net''] \<and>
      map_option (\<lambda>c. CallToExecute \<in> set (child_trace c)) (child (ForkAndSwitchToNamespace w ns toExecute)) =
        Some False \<and>
      map_option child_msg (child (ForkAndSwitchToNamespace w ns toExecute)) =
        Some (Some (''err:failed to open net namespace: '' @ strerror w (snd (open_net w)) @ [NUL]))) \<and>
   (in_parent w ns pipes pid \<and> fst (open_net w) < 0 \<and> NUL \<notin> set (strerror w (snd (open_net w))) \<and>
    (\<forall>e. Inl e \<notin> set (writes w)) \<and> (\<forall>e. Inl e \<notin> set (reads w)) \<and> \<not> deadline_first w \<longrightarrow>
      outcome (ForkAndSwitchToNamespace w ns toExecute) =
        Return None (Some (New (''failed to open net namespace: '' @ strerror w (snd (open_net w))))))"
proof (intro conjI impI)
  show "SysFork \<in> set (main_trace (ForkAndSwitchToNamespace w ns toExecute)) \<longleftrightarrow>
      NUL \<notin> set (filepath_Join w ns ''mnt'') \<and> NUL \<notin> set (filepath_Join w ns ''net'') \<and>
      (\<exists>pipes. pipe_result w = Inr pipes)"
    by (rule fork_is_attempted)
next
  let ?m = "filepath_Join w ns ''mnt''" and ?n = "filepath_Join w ns ''net''"
  let ?e = "snd (open_net w)"
  assume a: "in_parent w ns pipes pid \<and> fst (open_net w) < 0"
  then have nf: "net_failure w = Some (''open'', ?e)"
    by (simp add: net_failure_def)
  note sw = switchNs_net_failure [OF nf, of ?m ?n]
  note ch = child_branch_failed_switch [OF sw(1), of pipes toExecute]
  have c: "child (ForkAndSwitchToNamespace w ns toExecute) = Some (child_branch w ?m ?n pipes toExecute)"
    using a by (simp add: in_parent_run [of w ns pipes pid] parent_branch_child the_child_def)
  show "map_option (opened \<circ> child_trace) (child (ForkAndSwitchToNamespace w ns toExecute)) = Some [?n]"
    by (simp add: c ch(2) opened_append sw(2) write_loop_opened)
  show "map_option (\<lambda>c. CallToExecute \<in> set (child_trace c)) (child (ForkAndSwitchToNamespace w ns toExecute)) =
        Some False"
    using sw(4) by (auto simp: c ch(2) dest: write_loop_events)
  show "map_option child_msg (child (ForkAndSwitchToNamespace w ns toExecute)) =
        Some (Some (''err:failed to open net namespace: '' @ strerror w ?e @ [NUL]))"
    by (simp add: c ch(1))
next
  let ?m = "filepath_Join w ns ''mnt''" and ?n = "filepath_Join w ns ''net''"
  let ?e = "snd (open_net w)"
  let ?err = "Wrapf (Errno ?e) (''failed to '' @ ''open'' @ '' net namespace'')"
  assume a: "in_parent w ns pipes pid \<and> fst (open_net w) < 0 \<and> NUL \<notin> set (strerror w ?e) \<and>
    (\<forall>e. Inl e \<notin> set (writes w)) \<and> (\<forall>e. Inl e \<notin> set (reads w)) \<and> \<not> deadline_first w"
  then have p: "in_parent w ns pipes pid" and nf: "net_failure w = Some (''open'', ?e)"
    by (simp_all add: net_failure_def)
  have z: "NUL \<notin> set (Error (strerror w) ?err)"
    using a by simp
  from switch_error_reaches_parent [OF p switchNs_net_failure(1) [OF nf] z] a
  have "delivered (ForkAndSwitchToNamespace w ns toExecute) = Some ((''err:'' @ Error (strerror w) ?err) @ [NUL])"
    by blast
  moreover have "decode w ((''err:'' @ Error (strerror w) ?err) @ [NUL]) =
      Return None (Some (New (Error (strerror w) ?err)))"
    using decode_err [of w "Error (strerror w) ?err"] by simp
  ultimately show "outcome (ForkAndSwitchToNamespace w ns toExecute) =
        Return None (Some (New (''failed to open net namespace: '' @ strerror w ?e)))"
    using a by (simp add: in_parent_run [OF p] parent_branch_outcome)
qed

theorem net_handle_is_opened_in_the_child_witness:
  "in_parent (calm_world\<lparr>open_net := (- 1, 2), reads := [Inr 7]\<rparr>) ''/proc/7/ns'' (3, 4) 1234 \<and>
   fst (open_net (calm_world\<lparr>open_net := (- 1, 2), reads := [Inr 7]\<rparr>)) < 0 \<and>
   SysFork \<in> set (main_trace (ForkAndSwitchToNamespace (calm_world\<lparr>open_net := (- 1, 2), reads := [Inr 7]\<rparr>)
     ''/proc/7/ns'' (Some (Some True, None)))) \<and>
   map_option child_msg (child (ForkAndSwitchToNamespace (calm_world\<lparr>open_net := (- 1, 2), reads := [Inr 7]\<rparr>)
     ''/proc/7/ns'' (Some (Some True, None)))) =
     Some (Some (''err:failed to open net namespace: no such file or directory'' @ [NUL])) \<and>
   outcome (ForkAndSwitchToNamespace (calm_world\<lparr>open_net := (- 1, 2), reads := [Inr 7]\<rparr>)
     ''/proc/7/ns'' (Some (Some True, None))) =
     Return None (Some (New ''failed to open net namespace: no such file or directory''))"
proof -
  let ?w = "calm_world\<lparr>open_net := (- 1, 2), reads := [Inr 7]\<rparr>"
  have p: "in_parent ?w ''/proc/7/ns'' (3, 4) 1234"
    by (simp add: in_parent_def calm_world_def)
  have o: "fst (open_net ?w) < 0"
    by (simp add: calm_world_def)
  have f: "NUL \<notin> set (filepath_Join ?w ''/proc/7/ns'' ''mnt'') \<and>
      NUL \<notin> set (filepath_Join ?w ''/proc/7/ns'' ''net'') \<and> (\<exists>pipes. pipe_result ?w = Inr pipes)"
    by (simp add: calm_world_def)
  have z: "NUL \<notin> set (strerror ?w (snd (open_net ?w)))"
    by (simp add: calm_world_def)
  have io: "(\<forall>e. Inl e \<notin> set (writes ?w)) \<and> (\<forall>e. Inl e \<notin> set (reads ?w)) \<and> \<not> deadline_first ?w"
    by (simp add: calm_world_def)
  have t: "strerror ?w (snd (open_net ?w)) = ''no such file or directory''"
    by (simp add: calm_world_def)
  from net_handle_is_opened_in_the_child [of ?w "''/proc/7/ns''" "Some (Some True, None)" "(3, 4)" 1234]
    p o f z io
  show ?thesis
    unfolding t by simp
qed

text \<open>
  Claim C8 says that after the fork the child closes its copy of the read end. Here the
  pipe is \<open>(3, 4)\<close> and every call works: the child's calls are the six of the switch,
  the logic, one write, the close of 4 and the exit. It never closes 3.
\<close>

theorem child_keeps_read_end_counterexample:
  "pipe_result calm_world = Inr (3, 4) \<and>
   map_option child_trace (child (ForkAndSwitchToNamespace calm_world ''/proc/7/ns'' (Some (Some True, None)))) =
     Some [SysOpenat ''/proc/7/ns/net'', SysSetns 5 CLONE_NEWNET, SysClose 5,
           SysOpenat ''/proc/7/ns/mnt'', SysSetns 5 CLONE_NEWNS, SysClose 5,
           CallToExecute, SysWrite 4 (''ok:true'' @ [NUL]), SysClose 4, SysExitGroup] \<and>
   SysClose 3 \<notin> set (the (map_option child_trace
     (child (ForkAndSwitchToNamespace calm_world ''/proc/7/ns'' (Some (Some True, None))))))"
  by code_simp

text \<open>
  Claim C8, amended. After a fork that worked, with the pipe \<open>(rfd, wfd)\<close>: the
  parent's first call is the close of its copy of the write end; a reader that delivers
  a buffer that is not empty has closed the read end as its last call; a child that
  exits ends with the close of the write end and \<^verbatim>\<open>exit_group\<close>; and the child makes no
  close of its copy of the read end (the only descriptors it closes are the write end and
  the ones its own opens returned).
\<close>

theorem pipe_ends_after_the_fork:
  assumes "in_parent w ns (rfd, wfd) pid"
  shows "take 3 (main_trace (ForkAndSwitchToNamespace w ns toExecute)) = [SysPipe, SysFork, SysClose wfd] \<and>
         (\<forall>buf. delivered (ForkAndSwitchToNamespace w ns toExecute) = Some buf \<and> buf \<noteq> [] \<longrightarrow>
            reader_trace (ForkAndSwitchToNamespace w ns toExecute) \<noteq> [] \<and>
            last (reader_trace (ForkAndSwitchToNamespace w ns toExecute)) = SysClose rfd) \<and>
         (\<exists>c. child (ForkAndSwitchToNamespace w ns toExecute) = Some c \<and>
            (exited c \<longrightarrow> (\<exists>tr. child_trace c = tr @ [SysClose wfd, SysExitGroup])) \<and>
            (rfd \<noteq> wfd \<and> rfd \<noteq> fst (open_net w) \<and> rfd \<noteq> fst (open_mnt w) \<longrightarrow>
               SysClose rfd \<notin> set (child_trace c)))"
proof -
  note run = in_parent_run [OF assms, of toExecute]
  let ?c = "the_child w ns (rfd, wfd) toExecute"
  have one: "take 3 (main_trace (ForkAndSwitchToNamespace w ns toExecute)) = [SysPipe, SysFork, SysClose wfd]"
    by (simp add: run parent_branch_main_trace)
  have two: "reader_trace (ForkAndSwitchToNamespace w ns toExecute) \<noteq> [] \<and>
      last (reader_trace (ForkAndSwitchToNamespace w ns toExecute)) = SysClose rfd"
    if "delivered (ForkAndSwitchToNamespace w ns toExecute) = Some buf" "buf \<noteq> []" for buf
    using that reader_loop_closes [of w rfd 256 0 "replicate 256 NUL" "sent ?c" "exited ?c" "reads w" buf]
    by (simp add: run parent_branch_delivered parent_branch_reader_trace)
  have c: "child (ForkAndSwitchToNamespace w ns toExecute) = Some ?c"
    by (simp add: run parent_branch_child)
  have three: "exited ?c \<longrightarrow> (\<exists>tr. child_trace ?c = tr @ [SysClose wfd, SysExitGroup])"
    using child_branch_exit [of w _ _ "(rfd, wfd)" toExecute] by (simp add: the_child_def)
  have four: "rfd \<noteq> wfd \<and> rfd \<noteq> fst (open_net w) \<and> rfd \<noteq> fst (open_mnt w) \<longrightarrow>
      SysClose rfd \<notin> set (child_trace ?c)"
    using child_branch_closes [of rfd w _ _ "(rfd, wfd)" toExecute] by (auto simp: the_child_def)
  from one two c three four show ?thesis
    by blast
qed

theorem pipe_ends_after_the_fork_witness:
  "in_parent calm_world ''/proc/7/ns'' (3, 4) 1234 \<and>
   delivered (ForkAndSwitchToNamespace calm_world ''/proc/7/ns'' (Some (Some True, None))) =
     Some (''ok:true'' @ [NUL]) \<and>
   take 3 (main_trace (ForkAndSwitchToNamespace calm_world ''/proc/7/ns'' (Some (Some True, None)))) =
     [SysPipe, SysFork, SysClose 4] \<and>
   last (reader_trace (ForkAndSwitchToNamespace calm_world ''/proc/7/ns'' (Some (Some True, None)))) =
     SysClose 3 \<and>
   (\<exists>c. child (ForkAndSwitchToNamespace calm_world ''/proc/7/ns'' (Some (Some True, None))) = Some c \<and>
      exited c \<and> (\<exists>tr. child_trace c = tr @ [SysClose 4, SysExitGroup]) \<and>
      SysClose 3 \<notin> set (child_trace c))"
proof -
  let ?r = "ForkAndSwitchToNamespace calm_world ''/proc/7/ns'' (Some (Some True, None))"
  have p: "in_parent calm_world ''/proc/7/ns'' (3, 4) 1234"
    by (simp add: in_parent_def calm_world_def)
  have d: "delivered ?r = Some (''ok:true'' @ [NUL])"
    by code_simp
  have x: "\<And>c. child ?r = Some c \<Longrightarrow> exited c"
    by (simp add: in_parent_run [OF p] parent_branch_child the_child_def child_branch_def
        Let_def split: prod.splits)
  have fds: "(3::int) \<noteq> 4 \<and> 3 \<noteq> fst (open_net calm_world) \<and> 3 \<noteq> fst (open_mnt calm_world)"
    by (simp add: calm_world_def)
  from pipe_ends_after_the_fork [OF p, of "Some (Some True, None)"] d x fds p show ?thesis
    by (auto simp del: One_nat_def)
qed

end
